theory Spec2Isabelle
  imports Complex_Main "HOL-Library.Log_Nat"
begin

section \<open>Errors and tensors\<close>

text \<open>
  The exceptions of the Python source are values: every function that can raise returns
  \<open>error + 'a\<close>, with \<open>Inl\<close> for the exception.
\<close>

datatype error = RuntimeError | ValueError | KeyError | IndexError | AttributeError

text \<open>
  A tensor with two leading dimensions, as \<open>chunksumm.py\<close> uses them: dimension 0 is the
  batch, dimension 1 the token position. The shape is kept beside the rows, so that a
  tensor with no batch element or no token still has both sizes. The element type is
  a parameter: an integer for token ids and masks, a real for targets, and for an
  embedding or a hidden state the whole vector of one token (768 numbers in the
  source, never taken apart by it).
\<close>

record 'a tensor2 =
  dim0 :: nat
  dim1 :: nat
  rows :: "'a list list"

text \<open>A torch tensor is rectangular: \<open>dim0\<close> rows, each of \<open>dim1\<close> elements.\<close>

definition wf_tensor2 :: "'a tensor2 \<Rightarrow> bool" where
  "wf_tensor2 t = (length (rows t) = dim0 t \<and> list_all (\<lambda>r. length r = dim1 t) (rows t))"

text \<open>\<^verbatim>\<open>t[:, :n]\<close>: the first \<open>n\<close> positions of every row (all of them when there are fewer).\<close>

definition slice_cols :: "nat \<Rightarrow> 'a tensor2 \<Rightarrow> 'a tensor2" where
  "slice_cols n t = \<lparr>dim0 = dim0 t, dim1 = min n (dim1 t), rows = map (take n) (rows t)\<rparr>"

text \<open>\<^verbatim>\<open>t.narrow(1, start, len)\<close>, the view \<^verbatim>\<open>torch.split\<close> builds for each of its pieces.\<close>

definition narrow :: "'a tensor2 \<Rightarrow> nat \<Rightarrow> nat \<Rightarrow> 'a tensor2" where
  "narrow t start len =
     \<lparr>dim0 = dim0 t, dim1 = len, rows = map (\<lambda>r. take len (drop start r)) (rows t)\<rparr>"

text \<open>
  The property \<^verbatim>\<open>chunk\<close> of the source is
  \<^verbatim>\<open>partial(torch.split, split_size_or_sections=512, dim=1)\<close>: the pieces are the
  consecutive windows of 512 positions, the last one shorter when the length is no
  multiple of 512; a tensor with no position at all gives one empty piece.
\<close>

definition chunk :: "'a tensor2 \<Rightarrow> 'a tensor2 list" where
  "chunk t =
     map (\<lambda>i. narrow t (i * 512) (min 512 (dim1 t - i * 512)))
       [0 ..< max 1 ((dim1 t + 511) div 512)]"

text \<open>
  \<^verbatim>\<open>torch.stack(hidden_states)[-5:].mean(0)\<close>. Stacking raises on an empty tuple and on
  layers of different shapes; the mean of the last five layers (of all of them when
  there are fewer) is taken position by position. The mean of the vectors of one
  position is floating-point arithmetic of torch and is a parameter here.
\<close>

definition stack_mean_last5 :: "('e list \<Rightarrow> 'e) \<Rightarrow> 'e tensor2 list \<Rightarrow> error + 'e tensor2" where
  "stack_mean_last5 mean hs =
     (case hs of
        [] \<Rightarrow> Inl RuntimeError
      | h # _ \<Rightarrow>
          if list_all (\<lambda>h'. dim0 h' = dim0 h \<and> dim1 h' = dim1 h) hs then
            Inr \<lparr>dim0 = dim0 h, dim1 = dim1 h,
                 rows = map (\<lambda>i. map (\<lambda>j. mean (map (\<lambda>l. rows l ! i ! j) (drop (length hs - 5) hs)))
                                    [0 ..< dim1 h])
                            [0 ..< dim0 h]\<rparr>
          else Inl RuntimeError)"

text \<open>
  \<^verbatim>\<open>torch.cat(handler, dim=1)\<close>: raises on an empty list and when the batch sizes
  differ; row \<open>i\<close> of the result is the rows \<open>i\<close> of the pieces, one after another.
  (The third size, that of a token's vector, belongs to the element type: one
  encoder gives vectors of one size.)
\<close>

definition cat_dim1 :: "'e tensor2 list \<Rightarrow> error + 'e tensor2" where
  "cat_dim1 ts =
     (case ts of
        [] \<Rightarrow> Inl RuntimeError
      | t # _ \<Rightarrow>
          if list_all (\<lambda>t'. dim0 t' = dim0 t) ts then
            Inr \<lparr>dim0 = dim0 t, dim1 = sum_list (map dim1 ts),
                 rows = map (\<lambda>i. concat (map (\<lambda>t'. rows t' ! i) ts)) [0 ..< dim0 t]\<rparr>
          else Inl RuntimeError)"

section \<open>The model class \<open>CHUNKSUMM\<close>\<close>

text \<open>
  A tensor of any rank, for logits and expanded labels: its shape and its elements in
  row-major order.
\<close>

record 'a tensor =
  shape :: "nat list"
  flat :: "'a list"

text \<open>
  The attributes of \<open>CHUNKSUMM\<close> the methods read. The encoder \<open>bert\<close> is an external
  capability: given ids, mask and segment markers it returns its hidden states, one
  tensor per layer (index 2 of the output of the source's call), or raises. It is a
  function here: the same input gives the same output. \<open>layer_mean\<close> and \<open>softmax\<close> are
  the floating-point operations of torch on the vector of one token, \<open>l1\<close> the linear
  layer, \<open>criterion\<close> and \<open>auc\<close> the loss and the metric.
\<close>

record 'e chunksumm =
  bert :: "int tensor2 \<Rightarrow> int tensor2 \<Rightarrow> int tensor2 \<Rightarrow> error + 'e tensor2 list"
  layer_mean :: "'e list \<Rightarrow> 'e"
  l1 :: "'e \<Rightarrow> real list"
  softmax :: "real list \<Rightarrow> real list"
  n_classes :: nat
  enable_chunk :: bool
  criterion :: "real tensor \<Rightarrow> real tensor \<Rightarrow> real"
  auc :: "real tensor \<Rightarrow> int tensor \<Rightarrow> error + real"

text \<open>
  The loop of \<open>get_embedding\<close> over the zipped chunks: \<open>embed_chunk\<close> is its body, the
  encoder on one window and the mean of the last five layers, and \<open>embed_chunks\<close> fills
  \<open>handler\<close> in chunk order, stopping at the first exception.
\<close>

definition embed_chunk ::
  "'e chunksumm \<Rightarrow> int tensor2 \<times> int tensor2 \<times> int tensor2 \<Rightarrow> error + 'e tensor2" where
  "embed_chunk m c =
     (case c of (c0, c1, c2) \<Rightarrow>
        (case bert m c0 c1 c2 of
           Inl e \<Rightarrow> Inl e
         | Inr chunk_hidden_states \<Rightarrow> stack_mean_last5 (layer_mean m) chunk_hidden_states))"

fun embed_chunks ::
  "'e chunksumm \<Rightarrow> (int tensor2 \<times> int tensor2 \<times> int tensor2) list \<Rightarrow> error + 'e tensor2 list" where
  "embed_chunks m [] = Inr []"
| "embed_chunks m (c # cs) =
     (case embed_chunk m c of
        Inl e \<Rightarrow> Inl e
      | Inr chunk_embed2d \<Rightarrow>
          (case embed_chunks m cs of
             Inl e \<Rightarrow> Inl e
           | Inr handler \<Rightarrow> Inr (chunk_embed2d # handler)))"

definition get_embedding ::
  "'e chunksumm \<Rightarrow> int tensor2 \<Rightarrow> int tensor2 \<Rightarrow> int tensor2 \<Rightarrow> error + 'e tensor2" where
  "get_embedding m input_ids attention_mask token_type_ids =
     (if enable_chunk m then
        (case embed_chunks m
                (zip (chunk input_ids) (zip (chunk attention_mask) (chunk token_type_ids))) of
           Inl e \<Rightarrow> Inl e
         | Inr handler \<Rightarrow> cat_dim1 handler)
      else
        (case bert m (slice_cols 512 input_ids) (slice_cols 512 attention_mask)
                (slice_cols 512 token_type_ids) of
           Inl e \<Rightarrow> Inl e
         | Inr hidden_states \<Rightarrow> stack_mean_last5 (layer_mean m) hidden_states))"

text \<open>
  \<open>forward\<close>: the linear layer \<open>l1\<close> takes every token's embedding to its logits, one
  per class; the result is the logits themselves (\<open>train\<close>) or their softmax over the
  classes, in a tensor of shape (batch, tokens, classes).
\<close>

definition forward ::
  "'e chunksumm \<Rightarrow> int tensor2 \<Rightarrow> int tensor2 \<Rightarrow> int tensor2 \<Rightarrow> bool \<Rightarrow> error + real tensor" where
  "forward m input_ids attention_mask token_type_ids train =
     (case get_embedding m input_ids attention_mask token_type_ids of
        Inl e \<Rightarrow> Inl e
      | Inr embed2d \<Rightarrow>
          Inr \<lparr>shape = [dim0 embed2d, dim1 embed2d, n_classes m],
               flat = concat (concat (map (map (\<lambda>v. if train then l1 m v else softmax m (l1 m v)))
                                        (rows embed2d)))\<rparr>)"

text \<open>
  The tokenizer's output and an example of the dataset are dictionaries with fixed
  keys; a batch has the same keys with tensors of two dimensions as values.
\<close>

record 'a encoding =
  input_ids :: 'a
  token_type_ids :: 'a
  attention_mask :: 'a

record ('a, 'b) example = "'a encoding" +
  targets :: 'b

text \<open>
  \<open>expand_targets\<close>: \<^verbatim>\<open>targets.bool()\<close> is true exactly for the nonzero values; the list
  comprehension runs over the rows and then over the values of a row, and
  \<^verbatim>\<open>torch.stack\<close> raises when the comprehension is empty.
\<close>

definition to_bool :: "real \<Rightarrow> bool" where
  "to_bool v = (v \<noteq> 0)"

definition expand_val :: "bool \<Rightarrow> real list" where
  "expand_val val = (if val then [1, 0] else [0, 1])"

definition expand_targets :: "real tensor2 \<Rightarrow> error + real tensor" where
  "expand_targets tgts =
     (let out = concat (map (\<lambda>batch. map expand_val batch) (map (map to_bool) (rows tgts)))
      in if out = [] then Inl RuntimeError
         else Inr \<lparr>shape = [length out, 2], flat = concat out\<rparr>)"


text \<open>\<^verbatim>\<open>labels.int()\<close>: every element truncated towards zero.\<close>

definition trunc :: "real \<Rightarrow> int" where
  "trunc x = (if 0 \<le> x then \<lfloor>x\<rfloor> else \<lceil>x\<rceil>)"






definition predict_step ::
  "'e chunksumm \<Rightarrow> (int tensor2, real tensor2) example \<Rightarrow> error + real tensor" where
  "predict_step m batch =
     forward m (input_ids batch) (attention_mask batch) (token_type_ids batch) False"

text \<open>
  The claim about label expansion recovers a label by \<open>argmax\<close>, which the source never
  calls. This definition follows the claim's word: the position of the largest
  element, the first one on a tie, as \<^verbatim>\<open>torch.argmax\<close> gives it (the claim takes it
  of pairs only).
\<close>

fun argmax_from :: "real \<Rightarrow> nat \<Rightarrow> nat \<Rightarrow> real list \<Rightarrow> nat" where
  "argmax_from best k i [] = k"
| "argmax_from best k i (x # xs) =
     (if best < x then argmax_from x i (Suc i) xs else argmax_from best k (Suc i) xs)"

definition argmax :: "real list \<Rightarrow> nat" where
  "argmax xs = (case xs of [] \<Rightarrow> 0 | x # rest \<Rightarrow> argmax_from x 0 1 rest)"

section \<open>The dataset class \<open>SuMM_with_tokenizer\<close>\<close>

text \<open>
  One row of the data: its paper, its sentence (the column \<open>text\<close>, written \<open>text'\<close>
  here) and its label. The data frame is the
  list of its rows in order, each under its index label, and the names of the columns
  it has. A frame can lack a column; the cells of a column whose name is not in
  \<open>columns\<close> are never read. Index labels need not be unique in pandas.
\<close>

record 'k row =
  paper_id :: 'k
  text' :: string
  in_summary :: bool
















section \<open>The collate function of \<open>SummDataModule\<close>\<close>

text \<open>
  \<open>pad\<close> writes a tensor into the first positions of \<^verbatim>\<open>torch.zeros(max)\<close>, a tensor of
  32-bit floats: the assignment converts every element to float32 (\<open>conv\<close>), and raises
  when the tensor is longer than the buffer.

  \<open>float32_of_int\<close> is the value of the float32 nearest to an integer, ties to the
  even significand: integers up to \<open>2 ^ 24\<close> in magnitude are kept, larger ones are
  rounded to 24 significant bits (an int64 never overflows to infinity).
\<close>

definition float32_of_int :: "int \<Rightarrow> real" where
  "float32_of_int n =
     (if \<bar>n\<bar> \<le> 2 ^ 24 then of_int n
      else
        let e = floorlog 2 (nat \<bar>n\<bar>) - 24;
            q = \<bar>n\<bar> div 2 ^ e;
            r = \<bar>n\<bar> mod 2 ^ e;
            h = 2 ^ (e - 1)
        in of_int (sgn n * (if h < r \<or> (r = h \<and> odd q) then q + 1 else q) * 2 ^ e))"


text \<open>
  \<^verbatim>\<open>.int()\<close>: truncation to a 32-bit integer. The result for a float outside the range
  of int32 is undefined in C++ and differs between devices; \<open>oor\<close> stands for what the
  platform gives there.
\<close>

definition to_int32 :: "(real \<Rightarrow> int) \<Rightarrow> real \<Rightarrow> int" where
  "to_int32 oor x = (if - (2 ^ 31) \<le> trunc x \<and> trunc x < 2 ^ 31 then trunc x else oor x)"



text \<open>
  What the specification's interface asks of the encoder on one window: it returns at
  least one layer, and every layer has the batch size and the sequence length of the
  window.
\<close>

definition encoder_keeps_shape ::
  "'e chunksumm \<Rightarrow> int tensor2 \<times> int tensor2 \<times> int tensor2 \<Rightarrow> bool" where
  "encoder_keeps_shape m c =
     (case c of (c0, c1, c2) \<Rightarrow>
        (case bert m c0 c1 c2 of
           Inl e \<Rightarrow> False
         | Inr hs \<Rightarrow> hs \<noteq> [] \<and> list_all (\<lambda>h. dim0 h = dim0 c0 \<and> dim1 h = dim1 c0) hs))"

text \<open>
  The token positions of window \<open>k\<close> in a sequence of length \<open>n\<close>, and agreement of two
  tensors on every batch element at these positions.
\<close>

definition window_positions :: "nat \<Rightarrow> nat \<Rightarrow> nat list" where
  "window_positions n k = [512 * k ..< min n (512 * (k + 1))]"

definition agree_on_window :: "'a tensor2 \<Rightarrow> 'a tensor2 \<Rightarrow> nat \<Rightarrow> bool" where
  "agree_on_window s t k =
     list_all (\<lambda>i. list_all (\<lambda>j. rows s ! i ! j = rows t ! i ! j) (window_positions (dim1 s) k))
       [0 ..< dim0 s]"


section \<open>Concrete inputs\<close>

text \<open>
  A small encoder and model on which the theorems below are instantiated: the
  encoder returns two layers, the ids and the mask, so a token's embedding is the
  sum of its id and its mask bit.
\<close>

definition toy_bert :: "int tensor2 \<Rightarrow> int tensor2 \<Rightarrow> int tensor2 \<Rightarrow> error + int tensor2 list" where
  "toy_bert a b c = Inr [a, b]"

definition toy_model :: "int chunksumm" where
  "toy_model =
     \<lparr>bert = toy_bert, layer_mean = sum_list, l1 = (\<lambda>v. [real_of_int v, 0]),
      softmax = (\<lambda>xs. xs), n_classes = 2, enable_chunk = True,
      criterion = (\<lambda>a b. 0), auc = (\<lambda>a b. Inr 0)\<rparr>"

text \<open>
  A batch of one document of \<open>n + 1\<close> tokens: \<open>n\<close> times the value \<open>v\<close>, then \<open>w\<close>.
\<close>

definition doc :: "nat \<Rightarrow> int \<Rightarrow> int \<Rightarrow> int tensor2" where
  "doc n v w = \<lparr>dim0 = 1, dim1 = Suc n, rows = [replicate n v @ [w]]\<rparr>"










section \<open>Chunked and non-chunked embedding\<close>

lemma chunk_short:
  assumes "wf_tensor2 t" and "dim1 t \<le> 512"
  shows "chunk t = [slice_cols 512 t]"
proof -
  have n: "max 1 ((dim1 t + 511) div 512) = 1"
    using assms(2) by simp
  have r: "map (\<lambda>r. take (dim1 t) r) (rows t) = map (take 512) (rows t)"
    using assms by (auto simp: wf_tensor2_def list_all_iff)
  show ?thesis
    using assms(2) r by (simp add: chunk_def n narrow_def slice_cols_def min_def)
qed

lemma stack_mean_last5_wf:
  "stack_mean_last5 mean hs = Inr x \<Longrightarrow> wf_tensor2 x"
  by (auto simp: stack_mean_last5_def wf_tensor2_def list_all_iff split: list.splits if_splits)

lemma cat_dim1_single:
  assumes "wf_tensor2 x"
  shows "cat_dim1 [x] = Inr x"
proof -
  have "map ((!) (rows x)) [0 ..< dim0 x] = rows x"
    using assms by (metis map_nth wf_tensor2_def)
  then show ?thesis
    by (simp add: cat_dim1_def)
qed

lemma embed_chunk_enable_chunk [simp]:
  "embed_chunk (m\<lparr>enable_chunk := v\<rparr>) c = embed_chunk m c"
  by (simp add: embed_chunk_def split: prod.splits sum.splits)

lemma embed_chunks_enable_chunk [simp]:
  "embed_chunks (m\<lparr>enable_chunk := v\<rparr>) cs = embed_chunks m cs"
  by (induction cs) (simp_all split: sum.splits)

lemma get_embedding_unchunked:
  "get_embedding (m\<lparr>enable_chunk := False\<rparr>) a b c =
     embed_chunk m (slice_cols 512 a, slice_cols 512 b, slice_cols 512 c)"
  by (simp add: get_embedding_def embed_chunk_def split: sum.splits)

lemma get_embedding_chunked:
  "get_embedding (m\<lparr>enable_chunk := True\<rparr>) a b c =
     (case embed_chunks m (zip (chunk a) (zip (chunk b) (chunk c))) of
        Inl e \<Rightarrow> Inl e
      | Inr handler \<Rightarrow> cat_dim1 handler)"
  by (simp add: get_embedding_def)

lemma embed_chunk_wf:
  "embed_chunk m c = Inr x \<Longrightarrow> wf_tensor2 x"
  by (auto simp: embed_chunk_def stack_mean_last5_wf split: prod.splits sum.splits)

text \<open>
  Claim C1. For a batch whose three tensors have at most 512 token positions,
  \<open>get_embedding\<close> with \<open>enable_chunk\<close> set returns exactly what it returns with
  \<open>enable_chunk\<close> unset: the same embedding, or the same exception of the encoder.
  The only chunk is the whole tensor, which is also its slice \<^verbatim>\<open>[:, :512]\<close>.
\<close>

theorem C1_chunked_equals_unchunked_when_short:
  assumes "wf_tensor2 ids" and "wf_tensor2 amask" and "wf_tensor2 tt"
    and "dim1 ids \<le> 512" and "dim1 amask \<le> 512" and "dim1 tt \<le> 512"
  shows "get_embedding (m\<lparr>enable_chunk := True\<rparr>) ids amask tt =
         get_embedding (m\<lparr>enable_chunk := False\<rparr>) ids amask tt"
proof -
  let ?c = "(slice_cols 512 ids, slice_cols 512 amask, slice_cols 512 tt)"
  have z: "zip (chunk ids) (zip (chunk amask) (chunk tt)) = [?c]"
    using assms by (simp add: chunk_short)
  show ?thesis
  proof (cases "embed_chunk m ?c")
    case (Inl e)
    then show ?thesis
      by (simp add: get_embedding_chunked get_embedding_unchunked z)
  next
    case (Inr x)
    then have "cat_dim1 [x] = Inr x"
      by (simp add: embed_chunk_wf cat_dim1_single)
    with Inr show ?thesis
      by (simp add: get_embedding_chunked get_embedding_unchunked z)
  qed
qed

theorem C1_witness:
  "get_embedding (toy_model\<lparr>enable_chunk := True\<rparr>)
     \<lparr>dim0 = 1, dim1 = 2, rows = [[7, 8]]\<rparr> \<lparr>dim0 = 1, dim1 = 2, rows = [[1, 1]]\<rparr>
     \<lparr>dim0 = 1, dim1 = 2, rows = [[0, 0]]\<rparr> =
   get_embedding (toy_model\<lparr>enable_chunk := False\<rparr>)
     \<lparr>dim0 = 1, dim1 = 2, rows = [[7, 8]]\<rparr> \<lparr>dim0 = 1, dim1 = 2, rows = [[1, 1]]\<rparr>
     \<lparr>dim0 = 1, dim1 = 2, rows = [[0, 0]]\<rparr>
   \<and> get_embedding (toy_model\<lparr>enable_chunk := False\<rparr>)
     \<lparr>dim0 = 1, dim1 = 2, rows = [[7, 8]]\<rparr> \<lparr>dim0 = 1, dim1 = 2, rows = [[1, 1]]\<rparr>
     \<lparr>dim0 = 1, dim1 = 2, rows = [[0, 0]]\<rparr> = Inr \<lparr>dim0 = 1, dim1 = 2, rows = [[8, 9]]\<rparr>"
proof -
  have e: "get_embedding (toy_model\<lparr>enable_chunk := False\<rparr>)
     \<lparr>dim0 = 1, dim1 = 2, rows = [[7, 8]]\<rparr> \<lparr>dim0 = 1, dim1 = 2, rows = [[1, 1]]\<rparr>
     \<lparr>dim0 = 1, dim1 = 2, rows = [[0, 0]]\<rparr> = Inr \<lparr>dim0 = 1, dim1 = 2, rows = [[8, 9]]\<rparr>"
    by (simp add: get_embedding_def toy_model_def toy_bert_def slice_cols_def
        stack_mean_last5_def upt_rec)
  show ?thesis
    using C1_chunked_equals_unchunked_when_short
      [of "\<lparr>dim0 = 1, dim1 = 2, rows = [[7, 8]]\<rparr>" "\<lparr>dim0 = 1, dim1 = 2, rows = [[1, 1]]\<rparr>"
          "\<lparr>dim0 = 1, dim1 = 2, rows = [[0, 0]]\<rparr>" toy_model] e
    by (simp add: wf_tensor2_def)
qed

section \<open>Windows and their concatenation\<close>

lemma concat_nth_offset:
  "k < length xss \<Longrightarrow> j < length (xss ! k) \<Longrightarrow>
     concat xss ! (sum_list (map length (take k xss)) + j) = xss ! k ! j"
proof (induction xss arbitrary: k)
  case Nil
  then show ?case by simp
next
  case (Cons xs xss)
  show ?case
  proof (cases k)
    case 0
    with Cons.prems show ?thesis by (simp add: nth_append)
  next
    case (Suc k')
    with Cons show ?thesis by (simp add: nth_append)
  qed
qed

lemma window_sizes_sum:
  "sum_list (map (\<lambda>i. min 512 (n - i * 512)) [0 ..< c]) = min n (512 * c)"
  by (induction c) auto

lemma chunk_count_covers: "(n::nat) \<le> 512 * max 1 ((n + 511) div 512)"
  by (simp add: max_def) arith

lemma chunk_dim1_sum: "sum_list (map dim1 (chunk t)) = dim1 t"
proof -
  have "sum_list (map dim1 (chunk t)) =
        sum_list (map (\<lambda>i. min 512 (dim1 t - i * 512)) [0 ..< max 1 ((dim1 t + 511) div 512)])"
    by (simp add: chunk_def narrow_def comp_def)
  also have "\<dots> = min (dim1 t) (512 * max 1 ((dim1 t + 511) div 512))"
    by (rule window_sizes_sum)
  also have "\<dots> = dim1 t"
    using chunk_count_covers [of "dim1 t"] by simp
  finally show ?thesis .
qed

lemma window_pieces_concat:
  "length r = n \<Longrightarrow>
     concat (map (\<lambda>i. take (min 512 (n - i * 512)) (drop (i * 512) r)) [0 ..< c]) = take (512 * c) r"
proof (induction c)
  case 0
  then show ?case by simp
next
  case (Suc c)
  have "take (min 512 (n - c * 512)) (drop (c * 512) r) = take 512 (drop (c * 512) r)"
    using Suc.prems by (simp add: min_def)
  moreover have "take (512 * c) r @ take 512 (drop (c * 512) r) = take (512 * Suc c) r"
    by (simp add: take_add [symmetric] mult.commute add.commute)
  ultimately show ?case
    using Suc by simp
qed

lemma cat_dim1_chunk:
  assumes "wf_tensor2 t"
  shows "cat_dim1 (chunk t) = Inr t"
proof -
  let ?c = "max 1 ((dim1 t + 511) div 512)"
  have ne: "chunk t \<noteq> []"
    by (simp add: chunk_def)
  have d0: "list_all (\<lambda>t'. dim0 t' = dim0 t) (chunk t)"
    by (simp add: chunk_def narrow_def list_all_iff)
  have hd0: "dim0 (hd (chunk t)) = dim0 t"
    using ne d0 by (cases "chunk t") (simp_all)
  have row: "concat (map (\<lambda>t'. rows t' ! i) (chunk t)) = rows t ! i" if "i < dim0 t" for i
  proof -
    have len: "length (rows t ! i) = dim1 t" and il: "i < length (rows t)"
      using assms that by (auto simp: wf_tensor2_def list_all_iff)
    have "concat (map (\<lambda>t'. rows t' ! i) (chunk t)) =
          concat (map (\<lambda>k. take (min 512 (dim1 t - k * 512)) (drop (k * 512) (rows t ! i))) [0 ..< ?c])"
      using il by (simp add: chunk_def narrow_def comp_def)
    also have "\<dots> = take (512 * ?c) (rows t ! i)"
      using len by (rule window_pieces_concat)
    also have "\<dots> = rows t ! i"
      using chunk_count_covers [of "dim1 t"] len by simp
    finally show ?thesis .
  qed
  have "map (\<lambda>i. concat (map (\<lambda>t'. rows t' ! i) (chunk t))) [0 ..< dim0 t] = map (\<lambda>i. rows t ! i) [0 ..< dim0 t]"
    using row by simp
  also have "\<dots> = rows t"
    using assms by (metis map_nth wf_tensor2_def)
  finally have rws: "map (\<lambda>i. concat (map (\<lambda>t'. rows t' ! i) (chunk t))) [0 ..< dim0 t] = rows t" .
  show ?thesis
    using ne d0 hd0 rws chunk_dim1_sum [of t]
    by (cases "chunk t") (simp_all add: cat_dim1_def)
qed


lemma embed_chunk_keeps_shape:
  assumes "encoder_keeps_shape m c"
  shows "\<exists>x. embed_chunk m c = Inr x \<and> dim0 x = dim0 (fst c) \<and> dim1 x = dim1 (fst c) \<and> wf_tensor2 x"
proof -
  obtain c0 c1 c2 where c: "c = (c0, c1, c2)"
    by (cases c) auto
  from assms c obtain hs where hs: "bert m c0 c1 c2 = Inr hs" "hs \<noteq> []"
      "list_all (\<lambda>h. dim0 h = dim0 c0 \<and> dim1 h = dim1 c0) hs"
    by (auto simp: encoder_keeps_shape_def split: sum.splits)
  then obtain h rest where h: "hs = h # rest"
    by (cases hs) auto
  have same: "list_all (\<lambda>h'. dim0 h' = dim0 h \<and> dim1 h' = dim1 h) hs"
    using hs(3) h by (auto simp: list_all_iff)
  have hd: "dim0 h = dim0 c0" "dim1 h = dim1 c0"
    using hs(3) h by auto
  obtain x where x: "stack_mean_last5 (layer_mean m) hs = Inr x" "dim0 x = dim0 h" "dim1 x = dim1 h"
    using same h by (auto simp: stack_mean_last5_def)
  have "embed_chunk m c = Inr x"
    using c hs(1) x(1) by (simp add: embed_chunk_def)
  then show ?thesis
    using x hd c embed_chunk_wf by fastforce
qed

lemma embed_chunks_keeps_shape:
  assumes "list_all (encoder_keeps_shape m) cs"
  shows "\<exists>es. embed_chunks m cs = Inr es \<and> length es = length cs \<and>
           (\<forall>k < length cs. embed_chunk m (cs ! k) = Inr (es ! k) \<and> dim0 (es ! k) = dim0 (fst (cs ! k)) \<and>
               dim1 (es ! k) = dim1 (fst (cs ! k)) \<and> wf_tensor2 (es ! k))"
  using assms
proof (induction cs)
  case Nil
  then show ?case by simp
next
  case (Cons c cs)
  then obtain es where es: "embed_chunks m cs = Inr es" "length es = length cs"
      "\<forall>k < length cs. embed_chunk m (cs ! k) = Inr (es ! k) \<and> dim0 (es ! k) = dim0 (fst (cs ! k)) \<and>
               dim1 (es ! k) = dim1 (fst (cs ! k)) \<and> wf_tensor2 (es ! k)"
    by auto
  from Cons.prems obtain x where x: "embed_chunk m c = Inr x" "dim0 x = dim0 (fst c)"
      "dim1 x = dim1 (fst c)" "wf_tensor2 x"
    using embed_chunk_keeps_shape [of m c] by auto
  have "embed_chunks m (c # cs) = Inr (x # es)"
    using x(1) es(1) by simp
  moreover have "\<forall>k < length (c # cs). embed_chunk m ((c # cs) ! k) = Inr ((x # es) ! k) \<and>
      dim0 ((x # es) ! k) = dim0 (fst ((c # cs) ! k)) \<and>
      dim1 ((x # es) ! k) = dim1 (fst ((c # cs) ! k)) \<and> wf_tensor2 ((x # es) ! k)"
    using x es(3) by (auto simp: nth_Cons split: nat.splits)
  ultimately show ?case
    using es(2) by (intro exI [of _ "x # es"]) simp
qed

lemma cat_dim1_Inr:
  assumes "ts \<noteq> []" and "list_all (\<lambda>t. dim0 t = b) ts"
  shows "cat_dim1 ts =
     Inr \<lparr>dim0 = b, dim1 = sum_list (map dim1 ts),
          rows = map (\<lambda>i. concat (map (\<lambda>t'. rows t' ! i) ts)) [0 ..< b]\<rparr>"
  using assms by (cases ts) (auto simp: cat_dim1_def list_all_iff)

lemma cat_dim1_nth:
  assumes "cat_dim1 ts = Inr e" and "list_all wf_tensor2 ts"
    and "k < length ts" and "j < dim1 (ts ! k)" and "i < dim0 e"
  shows "rows e ! i ! (sum_list (map dim1 (take k ts)) + j) = rows (ts ! k) ! i ! j"
proof -
  from assms(1) have d0: "list_all (\<lambda>t. dim0 t = dim0 e) ts"
    and rws: "rows e = map (\<lambda>i. concat (map (\<lambda>t'. rows t' ! i) ts)) [0 ..< dim0 e]"
    by (auto simp: cat_dim1_def list_all_iff split: list.splits if_splits)
  let ?xss = "map (\<lambda>t'. rows t' ! i) ts"
  have len: "length (rows t ! i) = dim1 t" if "t \<in> set ts" for t
    using that assms(2,5) d0 by (auto simp: wf_tensor2_def list_all_iff)
  have "map length (take k ?xss) = map dim1 (take k ts)"
    using len by (auto simp: take_map dest: in_set_takeD)
  moreover have "j < length (?xss ! k)"
    using assms(3,4) len by simp
  moreover have "rows e ! i = concat ?xss"
    using rws assms(5) by (metis (no_types, lifting) add.left_neutral diff_zero length_upt nth_map nth_upt)
  ultimately show ?thesis
    using concat_nth_offset [of k ?xss j] assms(3) by simp
qed

lemma cat_dim1_wf:
  assumes "cat_dim1 ts = Inr e" and "list_all wf_tensor2 ts"
  shows "wf_tensor2 e"
proof -
  from assms(1) have d0: "list_all (\<lambda>t. dim0 t = dim0 e) ts"
    and rws: "rows e = map (\<lambda>i. concat (map (\<lambda>t'. rows t' ! i) ts)) [0 ..< dim0 e]"
    and d1: "dim1 e = sum_list (map dim1 ts)"
    by (auto simp: cat_dim1_def list_all_iff split: list.splits if_splits)
  have "length (concat (map (\<lambda>t'. rows t' ! i) ts)) = sum_list (map dim1 ts)" if "i < dim0 e" for i
  proof -
    have "map (\<lambda>t'. length (rows t' ! i)) ts = map dim1 ts"
      using that assms(2) d0 by (auto simp: wf_tensor2_def list_all_iff)
    then show ?thesis
      by (simp only: length_concat map_map comp_def)
  qed
  then show ?thesis
    using rws d1 by (auto simp: wf_tensor2_def list_all_iff)
qed

lemma chunk_length: "length (chunk t) = max 1 ((dim1 t + 511) div 512)"
  by (simp add: chunk_def)

lemma chunk_nth:
  "k < length (chunk t) \<Longrightarrow> chunk t ! k = narrow t (512 * k) (min 512 (dim1 t - 512 * k))"
  by (simp add: chunk_def mult.commute)

lemma chunk_hd_long:
  "512 \<le> dim1 t \<Longrightarrow> chunk t ! 0 = slice_cols 512 t"
  by (simp add: chunk_def narrow_def slice_cols_def upt_rec [of 0] min_def)

lemma ceil_div_512:
  "((n::nat) + 511) div 512 = n div 512 + (if n mod 512 = 0 then 0 else 1)"
proof -
  define q r where "q = n div 512" and "r = n mod 512"
  have n: "n = 512 * q + r" and r: "r < 512"
    by (simp_all add: q_def r_def)
  have "(n + 511) div 512 = q + (if r = 0 then 0 else 1)"
  proof (rule div_nat_eqI)
    show "512 * (q + (if r = 0 then 0 else 1)) \<le> n + 511"
      using n r by (cases "r = 0") simp_all
    show "n + 511 < 512 * Suc (q + (if r = 0 then 0 else 1))"
      using n r by (cases "r = 0") simp_all
  qed
  then show ?thesis
    by (simp add: q_def r_def)
qed

lemma window_size:
  assumes "0 < (n::nat)" and "k < max 1 ((n + 511) div 512)"
  shows "min 512 (n - 512 * k) = (if k < n div 512 then 512 else n mod 512) \<and>
         k < n div 512 + (if n mod 512 = 0 then 0 else 1)"
proof -
  define q r where "q = n div 512" and "r = n mod 512"
  have n: "n = 512 * q + r" and r: "r < 512"
    by (simp_all add: q_def r_def)
  have "k < max 1 (q + (if r = 0 then 0 else 1))"
    using assms(2) by (simp add: ceil_div_512 q_def r_def)
  moreover have "0 < q \<or> 0 < r"
    using assms(1) n by (cases "q = 0") simp_all
  ultimately have k: "k < q \<or> (k = q \<and> 0 < r)"
    by (cases "r = 0") (auto simp: max_def split: if_splits)
  have "min 512 (n - 512 * k) = (if k < q then 512 else r) \<and> k < q + (if r = 0 then 0 else 1)"
  proof (cases "k < q")
    case True
    then have "512 * k + 512 \<le> 512 * q"
      by linarith
    then have "512 \<le> n - 512 * k"
      using n by linarith
    then show ?thesis
      using True by (simp add: min_def)
  next
    case False
    with k have kq: "k = q" "0 < r"
      by auto
    then have "n - 512 * k = r"
      using n by simp
    then show ?thesis
      using kq r by (simp add: min_def)
  qed
  then show ?thesis
    by (simp add: q_def r_def)
qed

lemma chunk_dims_long:
  assumes "0 < dim1 t"
  shows "map dim1 (chunk t) =
     replicate (dim1 t div 512) 512 @ (if dim1 t mod 512 = 0 then [] else [dim1 t mod 512])"
proof -
  define q r where "q = dim1 t div 512" and "r = dim1 t mod 512"
  define c where "c = max 1 ((dim1 t + 511) div 512)"
  have n: "dim1 t = 512 * q + r"
    by (simp add: q_def r_def)
  have pos: "0 < q \<or> 0 < r"
    using assms n by (cases "q = 0") simp_all
  have "(dim1 t + 511) div 512 = q + (if r = 0 then 0 else 1)"
    by (simp only: ceil_div_512 q_def r_def)
  then have c: "c = q + (if r = 0 then 0 else 1)"
    using pos by (cases "r = 0") (simp_all add: c_def)
  have len: "length (chunk t) = c"
    by (simp only: chunk_length c_def)
  have el: "dim1 (chunk t ! k) = (if k < q then 512 else r)" if "k < c" for k
  proof -
    have "dim1 (chunk t ! k) = min 512 (dim1 t - 512 * k)"
      using that len by (simp add: chunk_nth narrow_def)
    then show ?thesis
      using window_size [OF assms, of k] that by (simp only: c_def q_def r_def)
  qed
  have "map dim1 (chunk t) = replicate q 512 @ (if r = 0 then [] else [r])"
  proof (rule nth_equalityI)
    show "length (map dim1 (chunk t)) = length (replicate q 512 @ (if r = 0 then [] else [r]))"
      using c len by simp
  next
    fix k assume "k < length (map dim1 (chunk t))"
    then have k: "k < c"
      using len by simp
    then have "k < q \<or> (k = q \<and> r \<noteq> 0)"
      using c by (cases "r = 0") auto
    then show "map dim1 (chunk t) ! k = (replicate q 512 @ (if r = 0 then [] else [r])) ! k"
      using el [OF k] k len by (auto simp: nth_append)
  qed
  then show ?thesis
    by (simp only: q_def r_def)
qed

lemma chunk_dim0: "k < length (chunk t) \<Longrightarrow> dim0 (chunk t ! k) = dim0 t"
  by (simp add: chunk_nth narrow_def)

lemma chunk_offset:
  assumes "k < length (chunk t)"
  shows "sum_list (map dim1 (take k (chunk t))) = min (dim1 t) (512 * k)"
proof -
  have "take k (chunk t) = map (\<lambda>i. narrow t (i * 512) (min 512 (dim1 t - i * 512))) [0 ..< k]"
    using assms by (simp add: chunk_def take_map take_upt)
  then have "map dim1 (take k (chunk t)) = map (\<lambda>i. min 512 (dim1 t - i * 512)) [0 ..< k]"
    by (simp add: narrow_def comp_def)
  then show ?thesis
    by (simp only: window_sizes_sum)
qed

lemma chunked_embedding:
  fixes m :: "'e chunksumm"
  assumes d1: "dim1 amask = dim1 ids" "dim1 tt = dim1 ids"
    and enc: "list_all (encoder_keeps_shape m) (zip (chunk ids) (zip (chunk amask) (chunk tt)))"
  shows "\<exists>e es. get_embedding (m\<lparr>enable_chunk := True\<rparr>) ids amask tt = Inr e \<and>
           embed_chunks m (zip (chunk ids) (zip (chunk amask) (chunk tt))) = Inr es \<and>
           cat_dim1 es = Inr e \<and> length es = length (chunk ids) \<and>
           dim0 e = dim0 ids \<and> dim1 e = dim1 ids \<and> wf_tensor2 e \<and>
           (\<forall>k < length (chunk ids).
              embed_chunk m (chunk ids ! k, chunk amask ! k, chunk tt ! k) = Inr (es ! k) \<and>
              dim1 (es ! k) = dim1 (chunk ids ! k) \<and>
              (\<forall>i < dim0 ids. \<forall>j < dim1 (chunk ids ! k).
                 rows e ! i ! (512 * k + j) = rows (es ! k) ! i ! j))"
proof -
  let ?cs = "zip (chunk ids) (zip (chunk amask) (chunk tt))"
  let ?n = "length (chunk ids)"
  have lens: "length (chunk amask) = ?n" "length (chunk tt) = ?n"
    using d1 by (simp_all add: chunk_length)
  then have lcs: "length ?cs = ?n"
    by simp
  have csk: "?cs ! k = (chunk ids ! k, chunk amask ! k, chunk tt ! k)" if "k < ?n" for k
    using that lens by simp
  from embed_chunks_keeps_shape [OF enc] obtain es where
    es: "embed_chunks m ?cs = Inr es" "length es = length ?cs"
      "\<forall>k < length ?cs. embed_chunk m (?cs ! k) = Inr (es ! k) \<and> dim0 (es ! k) = dim0 (fst (?cs ! k)) \<and>
          dim1 (es ! k) = dim1 (fst (?cs ! k)) \<and> wf_tensor2 (es ! k)"
    by blast
  have les: "length es = ?n"
    using es(2) lcs by simp
  have esk: "embed_chunk m (chunk ids ! k, chunk amask ! k, chunk tt ! k) = Inr (es ! k)"
      "dim0 (es ! k) = dim0 ids" "dim1 (es ! k) = dim1 (chunk ids ! k)" "wf_tensor2 (es ! k)"
    if "k < ?n" for k
    using es(3) that lcs csk [OF that] chunk_dim0 [OF that] by auto
  have ne: "es \<noteq> []"
    using les by (auto simp: chunk_length)
  have all0: "list_all (\<lambda>t. dim0 t = dim0 ids) es"
    using esk(2) les by (auto simp: list_all_length)
  have allwf: "list_all wf_tensor2 es"
    using esk(4) les by (auto simp: list_all_length)
  have dims: "map dim1 es = map dim1 (chunk ids)"
    using esk(3) les by (auto intro: nth_equalityI)
  define e where "e = \<lparr>dim0 = dim0 ids, dim1 = sum_list (map dim1 es),
          rows = map (\<lambda>i. concat (map (\<lambda>t'. rows t' ! i) es)) [0 ..< dim0 ids]\<rparr>"
  have cat: "cat_dim1 es = Inr e"
    unfolding e_def using ne all0 by (rule cat_dim1_Inr)
  have e0: "dim0 e = dim0 ids"
    by (simp add: e_def)
  have e1: "dim1 e = dim1 ids"
    using dims by (simp add: e_def chunk_dim1_sum)
  have ewf: "wf_tensor2 e"
    using cat allwf by (rule cat_dim1_wf)
  have ge: "get_embedding (m\<lparr>enable_chunk := True\<rparr>) ids amask tt = Inr e"
    using es(1) cat by (simp add: get_embedding_chunked)
  have pos: "rows e ! i ! (512 * k + j) = rows (es ! k) ! i ! j"
    if k: "k < ?n" and i: "i < dim0 ids" and j: "j < dim1 (chunk ids ! k)" for k i j
  proof -
    have "dim1 (chunk ids ! k) = min 512 (dim1 ids - 512 * k)"
      using k by (simp add: chunk_nth narrow_def)
    with j have "j < dim1 ids - 512 * k"
      by simp
    then have "512 * k < dim1 ids"
      by linarith
    moreover have "sum_list (map dim1 (take k es)) = min (dim1 ids) (512 * k)"
      using chunk_offset [OF k] dims by (simp add: take_map [symmetric])
    ultimately have off: "sum_list (map dim1 (take k es)) = 512 * k"
      by simp
    have "rows e ! i ! (sum_list (map dim1 (take k es)) + j) = rows (es ! k) ! i ! j"
      using cat allwf k j i les esk(3) [OF k] e0 by (intro cat_dim1_nth) simp_all
    then show ?thesis
      by (simp only: off)
  qed
  show ?thesis
    using ge es(1) cat les e0 e1 ewf esk(1,3) pos by blast
qed

lemma chunk_agree:
  assumes "wf_tensor2 s" and "wf_tensor2 t" and "dim0 t = dim0 s" and "dim1 t = dim1 s"
    and "agree_on_window s t k" and "k < length (chunk s)"
  shows "chunk s ! k = chunk t ! k"
proof -
  let ?len = "min 512 (dim1 s - 512 * k)"
  have kt: "k < length (chunk t)"
    using assms(4,6) by (simp add: chunk_length)
  have ls: "length (rows s) = dim0 s" "length (rows t) = dim0 s"
    using assms(1,2,3) by (simp_all add: wf_tensor2_def)
  have rl: "length (rows s ! i) = dim1 s" "length (rows t ! i) = dim1 s" if "i < dim0 s" for i
    using assms(1,2,3,4) that by (auto simp: wf_tensor2_def list_all_length)
  have ag: "rows s ! i ! j = rows t ! i ! j"
    if "i < dim0 s" and "512 * k \<le> j" and "j < min (dim1 s) (512 * (k + 1))" for i j
    using assms(5) that by (auto simp: agree_on_window_def window_positions_def list_all_iff)
  have "take ?len (drop (512 * k) (rows s ! i)) = take ?len (drop (512 * k) (rows t ! i))"
    if i: "i < dim0 s" for i
  proof (rule nth_equalityI)
    show "length (take ?len (drop (512 * k) (rows s ! i))) =
          length (take ?len (drop (512 * k) (rows t ! i)))"
      using rl [OF i] by simp
  next
    fix j assume "j < length (take ?len (drop (512 * k) (rows s ! i)))"
    then have j: "j < 512" "j < dim1 s - 512 * k"
      using rl [OF i] by simp_all
    then have "512 * k + j < min (dim1 s) (512 * (k + 1))"
      by simp
    then have "rows s ! i ! (512 * k + j) = rows t ! i ! (512 * k + j)"
      using ag [OF i] by simp
    then show "take ?len (drop (512 * k) (rows s ! i)) ! j =
               take ?len (drop (512 * k) (rows t ! i)) ! j"
      using j rl [OF i] by simp
  qed
  then have "map (\<lambda>r. take ?len (drop (512 * k) r)) (rows s) =
             map (\<lambda>r. take ?len (drop (512 * k) r)) (rows t)"
    using ls by (auto intro: nth_equalityI)
  then show ?thesis
    using assms(3,4,6) kt by (simp add: chunk_nth narrow_def)
qed

text \<open>
  Claim C6. In chunked mode no representation crosses a chunk boundary. Take two
  batches of the same shape that agree, on every batch element, at all positions of
  window \<open>k\<close> (ids, mask and segment markers), and an encoder that keeps the shape of
  each window it is given, as the specification's encoder interface says. Then both
  calls of \<open>get_embedding\<close> return an embedding for every position, and the two
  embeddings agree at all positions of window \<open>k\<close>, whatever the other windows hold.
\<close>

theorem C6_no_mixing_across_windows:
  fixes m :: "'e chunksumm"
  assumes wf: "wf_tensor2 ids1" "wf_tensor2 amask1" "wf_tensor2 tt1"
      "wf_tensor2 ids2" "wf_tensor2 amask2" "wf_tensor2 tt2"
    and d0: "dim0 amask1 = dim0 ids1" "dim0 tt1 = dim0 ids1"
      "dim0 ids2 = dim0 ids1" "dim0 amask2 = dim0 ids1" "dim0 tt2 = dim0 ids1"
    and d1: "dim1 amask1 = dim1 ids1" "dim1 tt1 = dim1 ids1"
      "dim1 ids2 = dim1 ids1" "dim1 amask2 = dim1 ids1" "dim1 tt2 = dim1 ids1"
    and ag: "agree_on_window ids1 ids2 k" "agree_on_window amask1 amask2 k"
      "agree_on_window tt1 tt2 k"
    and enc1: "list_all (encoder_keeps_shape m) (zip (chunk ids1) (zip (chunk amask1) (chunk tt1)))"
    and enc2: "list_all (encoder_keeps_shape m) (zip (chunk ids2) (zip (chunk amask2) (chunk tt2)))"
  shows "\<exists>e1 e2. get_embedding (m\<lparr>enable_chunk := True\<rparr>) ids1 amask1 tt1 = Inr e1 \<and>
           get_embedding (m\<lparr>enable_chunk := True\<rparr>) ids2 amask2 tt2 = Inr e2 \<and>
           dim0 e1 = dim0 ids1 \<and> dim0 e2 = dim0 ids1 \<and>
           dim1 e1 = dim1 ids1 \<and> dim1 e2 = dim1 ids1 \<and> agree_on_window e1 e2 k"
proof -
  from chunked_embedding [OF d1(1,2) enc1] obtain e1 es1 where
    e1: "get_embedding (m\<lparr>enable_chunk := True\<rparr>) ids1 amask1 tt1 = Inr e1"
      "dim0 e1 = dim0 ids1" "dim1 e1 = dim1 ids1"
      "\<forall>k < length (chunk ids1).
          embed_chunk m (chunk ids1 ! k, chunk amask1 ! k, chunk tt1 ! k) = Inr (es1 ! k) \<and>
          dim1 (es1 ! k) = dim1 (chunk ids1 ! k) \<and>
          (\<forall>i < dim0 ids1. \<forall>j < dim1 (chunk ids1 ! k).
             rows e1 ! i ! (512 * k + j) = rows (es1 ! k) ! i ! j)"
    by blast
  have d12: "dim1 amask2 = dim1 ids2" "dim1 tt2 = dim1 ids2"
    using d1 by simp_all
  from chunked_embedding [OF d12 enc2] obtain e2 es2 where
    e2: "get_embedding (m\<lparr>enable_chunk := True\<rparr>) ids2 amask2 tt2 = Inr e2"
      "dim0 e2 = dim0 ids2" "dim1 e2 = dim1 ids2"
      "\<forall>k < length (chunk ids2).
          embed_chunk m (chunk ids2 ! k, chunk amask2 ! k, chunk tt2 ! k) = Inr (es2 ! k) \<and>
          dim1 (es2 ! k) = dim1 (chunk ids2 ! k) \<and>
          (\<forall>i < dim0 ids2. \<forall>j < dim1 (chunk ids2 ! k).
             rows e2 ! i ! (512 * k + j) = rows (es2 ! k) ! i ! j)"
    by blast
  have "rows e1 ! i ! p = rows e2 ! i ! p"
    if i: "i < dim0 ids1" and p: "512 * k \<le> p" "p < min (dim1 ids1) (512 * (k + 1))" for i p
  proof -
    have kn: "k < length (chunk ids1)"
    proof -
      have "512 * k < dim1 ids1"
        using p by simp
      also have "\<dots> \<le> 512 * max 1 ((dim1 ids1 + 511) div 512)"
        by (rule chunk_count_covers)
      finally show ?thesis
        by (simp add: chunk_length)
    qed
    then have kn2: "k < length (chunk ids2)"
      using d1 by (simp add: chunk_length)
    have kl: "k < length (chunk amask1)" "k < length (chunk tt1)"
      using kn d1 by (simp_all add: chunk_length)
    have c: "chunk ids1 ! k = chunk ids2 ! k" "chunk amask1 ! k = chunk amask2 ! k"
        "chunk tt1 ! k = chunk tt2 ! k"
      using chunk_agree [OF wf(1) wf(4) _ _ ag(1) kn]
        chunk_agree [OF wf(2) wf(5) _ _ ag(2) kl(1)]
        chunk_agree [OF wf(3) wf(6) _ _ ag(3) kl(2)] d0 d1 by simp_all
    have "Inr (es1 ! k) = (Inr (es2 ! k) :: error + 'e tensor2)"
      using e1(4) e2(4) kn kn2 c by (metis (no_types, lifting))
    then have es: "es1 ! k = es2 ! k"
      by simp
    define j where "j = p - 512 * k"
    have pj: "p = 512 * k + j"
      using p(1) by (simp add: j_def)
    have "dim1 (chunk ids1 ! k) = min 512 (dim1 ids1 - 512 * k)"
      using kn by (simp add: chunk_nth narrow_def)
    moreover have "p < dim1 ids1" "p < 512 * k + 512"
      using p(2) by simp_all
    then have "j < 512" "j < dim1 ids1 - 512 * k"
      using pj by simp_all
    ultimately have j1: "j < dim1 (chunk ids1 ! k)"
      by simp
    then have j2: "j < dim1 (chunk ids2 ! k)"
      using c by simp
    have "rows e1 ! i ! (512 * k + j) = rows (es1 ! k) ! i ! j"
      using e1(4) kn i j1 by blast
    moreover have "rows e2 ! i ! (512 * k + j) = rows (es2 ! k) ! i ! j"
      using e2(4) kn2 i j2 d0 by simp
    ultimately show ?thesis
      using es pj by simp
  qed
  then have "agree_on_window e1 e2 k"
    using e1(2,3) by (auto simp: agree_on_window_def window_positions_def list_all_iff)
  then show ?thesis
    using e1(1,2,3) e2(1,2,3) d0 d1 by auto
qed

lemma toy_model_keeps_shape:
  assumes "dim0 amask = dim0 ids" and "dim1 amask = dim1 ids" and "dim1 tt = dim1 ids"
  shows "list_all (encoder_keeps_shape toy_model) (zip (chunk ids) (zip (chunk amask) (chunk tt)))"
proof -
  have "encoder_keeps_shape toy_model (zip (chunk ids) (zip (chunk amask) (chunk tt)) ! k)"
    if "k < length (chunk ids)" for k
  proof -
    have "k < length (chunk amask)" "k < length (chunk tt)"
      using that assms by (simp_all add: chunk_length)
    then show ?thesis
      using that assms
      by (simp add: encoder_keeps_shape_def toy_model_def toy_bert_def chunk_nth narrow_def)
  qed
  then show ?thesis
    using assms by (simp add: list_all_length chunk_length)
qed

lemma wf_doc: "wf_tensor2 (doc n v w)"
  by (simp add: doc_def wf_tensor2_def)

text \<open>
  Claim C2. For a batch of more than 512 token positions and an encoder that returns,
  for each window, layers with the batch size and sequence length of that window:
  with \<open>enable_chunk\<close> set, \<open>get_embedding\<close> returns a rectangular tensor with exactly as
  many positions per batch element as the input, the concatenation in chunk order of
  one piece per window; the windows have 512 positions each, the last one the
  remainder, window \<open>k\<close> is the slice starting at \<open>512 * k\<close>, and the windows put together
  again are the input (no gap, no overlap); with \<open>enable_chunk\<close> unset the result has
  exactly 512 positions. The witness is the 1000-token document of the specification,
  with windows of 512 and 488 positions.
\<close>

theorem C2_chunked_covers_every_position:
  fixes m :: "'e chunksumm"
  assumes "wf_tensor2 ids" and "dim1 amask = dim1 ids" and "dim1 tt = dim1 ids"
    and "512 < dim1 ids"
    and "list_all (encoder_keeps_shape m) (zip (chunk ids) (zip (chunk amask) (chunk tt)))"
  shows "(\<exists>e es. get_embedding (m\<lparr>enable_chunk := True\<rparr>) ids amask tt = Inr e \<and>
            dim0 e = dim0 ids \<and> dim1 e = dim1 ids \<and> wf_tensor2 e \<and>
            embed_chunks m (zip (chunk ids) (zip (chunk amask) (chunk tt))) = Inr es \<and>
            cat_dim1 es = Inr e \<and> map dim1 es = map dim1 (chunk ids)) \<and>
         map dim1 (chunk ids) =
           replicate (dim1 ids div 512) 512 @ (if dim1 ids mod 512 = 0 then [] else [dim1 ids mod 512]) \<and>
         (\<forall>k < length (chunk ids).
            chunk ids ! k = narrow ids (512 * k) (min 512 (dim1 ids - 512 * k))) \<and>
         cat_dim1 (chunk ids) = Inr ids \<and>
         (\<exists>e. get_embedding (m\<lparr>enable_chunk := False\<rparr>) ids amask tt = Inr e \<and>
            dim0 e = dim0 ids \<and> dim1 e = 512 \<and> wf_tensor2 e)"
proof -
  let ?cs = "zip (chunk ids) (zip (chunk amask) (chunk tt))"
  from chunked_embedding [OF assms(2,3,5)] obtain e es where
    e: "get_embedding (m\<lparr>enable_chunk := True\<rparr>) ids amask tt = Inr e"
      "embed_chunks m ?cs = Inr es" "cat_dim1 es = Inr e" "length es = length (chunk ids)"
      "dim0 e = dim0 ids" "dim1 e = dim1 ids" "wf_tensor2 e"
      "\<forall>k < length (chunk ids). dim1 (es ! k) = dim1 (chunk ids ! k)"
    by blast
  have dims: "map dim1 es = map dim1 (chunk ids)"
    using e(4,8) by (auto intro: nth_equalityI)
  have first: "\<exists>e es. get_embedding (m\<lparr>enable_chunk := True\<rparr>) ids amask tt = Inr e \<and>
            dim0 e = dim0 ids \<and> dim1 e = dim1 ids \<and> wf_tensor2 e \<and>
            embed_chunks m ?cs = Inr es \<and> cat_dim1 es = Inr e \<and> map dim1 es = map dim1 (chunk ids)"
    using e dims by blast
  have lens: "0 < length (chunk ids)" "0 < length (chunk amask)" "0 < length (chunk tt)"
    by (simp_all add: chunk_length)
  then have "?cs ! 0 = (chunk ids ! 0, chunk amask ! 0, chunk tt ! 0)" and "0 < length ?cs"
    by simp_all
  then have "encoder_keeps_shape m (chunk ids ! 0, chunk amask ! 0, chunk tt ! 0)"
    using assms(5) by (metis list_all_length)
  then have "encoder_keeps_shape m (slice_cols 512 ids, slice_cols 512 amask, slice_cols 512 tt)"
    using assms(2,3,4) by (simp add: chunk_hd_long)
  from embed_chunk_keeps_shape [OF this] obtain x where
    x: "embed_chunk m (slice_cols 512 ids, slice_cols 512 amask, slice_cols 512 tt) = Inr x"
      "dim0 x = dim0 (slice_cols 512 ids)" "dim1 x = dim1 (slice_cols 512 ids)" "wf_tensor2 x"
    by auto
  have last: "\<exists>e. get_embedding (m\<lparr>enable_chunk := False\<rparr>) ids amask tt = Inr e \<and>
            dim0 e = dim0 ids \<and> dim1 e = 512 \<and> wf_tensor2 e"
    using x assms(4) by (simp add: get_embedding_unchunked slice_cols_def)
  show ?thesis
    using first last chunk_dims_long [of ids] assms(4) chunk_nth [of _ ids]
      cat_dim1_chunk [OF assms(1)]
    by simp
qed

theorem C2_witness:
  "(\<exists>e. get_embedding (toy_model\<lparr>enable_chunk := True\<rparr>) (doc 999 7 9) (doc 999 1 1) (doc 999 0 0) = Inr e \<and>
        dim0 e = 1 \<and> dim1 e = 1000 \<and> wf_tensor2 e) \<and>
   map dim1 (chunk (doc 999 7 9)) = [512, 488] \<and>
   cat_dim1 (chunk (doc 999 7 9)) = Inr (doc 999 7 9) \<and>
   (\<exists>e. get_embedding (toy_model\<lparr>enable_chunk := False\<rparr>) (doc 999 7 9) (doc 999 1 1) (doc 999 0 0) = Inr e \<and>
        dim1 e = 512)"
proof -
  have d: "dim0 (doc 999 7 9) = 1" "dim1 (doc 999 7 9) = 1000" "dim0 (doc 999 1 1) = 1"
      "dim1 (doc 999 1 1) = 1000" "dim1 (doc 999 0 0) = 1000"
    by (simp_all add: doc_def)
  have enc: "list_all (encoder_keeps_shape toy_model)
      (zip (chunk (doc 999 7 9)) (zip (chunk (doc 999 1 1)) (chunk (doc 999 0 0))))"
    using d by (intro toy_model_keeps_shape) simp_all
  have a: "(1000::nat) div 512 = 1" and b: "(1000::nat) mod 512 = 488"
    by simp_all
  have c: "(512::nat) < 1000"
    by simp
  note t = C2_chunked_covers_every_position
    [of "doc 999 7 9" "doc 999 1 1" "doc 999 0 0" toy_model, OF wf_doc, unfolded d, OF refl refl c enc]
  have "map dim1 (chunk (doc 999 7 9)) = [512, 488]"
    using t by (simp add: a b)
  moreover have "cat_dim1 (chunk (doc 999 7 9)) = Inr (doc 999 7 9)"
    using t by blast
  moreover have "\<exists>e. get_embedding (toy_model\<lparr>enable_chunk := True\<rparr>) (doc 999 7 9) (doc 999 1 1)
      (doc 999 0 0) = Inr e \<and> dim0 e = 1 \<and> dim1 e = 1000 \<and> wf_tensor2 e"
    using t by blast
  moreover have "\<exists>e. get_embedding (toy_model\<lparr>enable_chunk := False\<rparr>) (doc 999 7 9) (doc 999 1 1)
      (doc 999 0 0) = Inr e \<and> dim1 e = 512"
    using t by blast
  ultimately show ?thesis
    by blast
qed

theorem C6_witness:
  "\<exists>e1 e2. get_embedding (toy_model\<lparr>enable_chunk := True\<rparr>) (doc 512 7 1) (doc 512 1 1) (doc 512 0 0) = Inr e1 \<and>
     get_embedding (toy_model\<lparr>enable_chunk := True\<rparr>) (doc 512 7 2) (doc 512 1 0) (doc 512 0 0) = Inr e2 \<and>
     dim1 e1 = 513 \<and> dim1 e2 = 513 \<and> agree_on_window e1 e2 0"
proof -
  have ag: "agree_on_window (doc 512 v w) (doc 512 v w') 0" for v w w' :: int
    by (simp add: agree_on_window_def doc_def window_positions_def list_all_iff nth_append)
  have enc: "list_all (encoder_keeps_shape toy_model)
      (zip (chunk (doc 512 a b)) (zip (chunk (doc 512 c d)) (chunk (doc 512 e f))))" for a b c d e f
    by (intro toy_model_keeps_shape) (simp_all add: doc_def)
  have "\<exists>e1 e2. get_embedding (toy_model\<lparr>enable_chunk := True\<rparr>) (doc 512 7 1) (doc 512 1 1) (doc 512 0 0) = Inr e1 \<and>
           get_embedding (toy_model\<lparr>enable_chunk := True\<rparr>) (doc 512 7 2) (doc 512 1 0) (doc 512 0 0) = Inr e2 \<and>
           dim0 e1 = dim0 (doc 512 7 1) \<and> dim0 e2 = dim0 (doc 512 7 1) \<and>
           dim1 e1 = dim1 (doc 512 7 1) \<and> dim1 e2 = dim1 (doc 512 7 1) \<and> agree_on_window e1 e2 0"
    by (rule C6_no_mixing_across_windows) (simp_all add: wf_doc ag enc, simp_all add: doc_def)
  moreover have "dim1 (doc 512 7 1) = 513"
    by (simp add: doc_def)
  ultimately show ?thesis
    by auto
qed

section \<open>Label expansion and the steps\<close>










lemma expand_targets_flat:
  "expand_targets t =
     (if concat (rows t) = [] then Inl RuntimeError
      else Inr \<lparr>shape = [length (concat (rows t)), 2],
                flat = concat (map (\<lambda>v. if v \<noteq> 0 then [1, 0] else [0, 1]) (concat (rows t)))\<rparr>)"
proof -
  have a: "concat (map (\<lambda>batch. map expand_val batch) (map (map to_bool) (rows t))) =
        map (\<lambda>v. if v \<noteq> 0 then [1, 0] else [0, 1]) (concat (rows t))"
    by (simp add: map_concat comp_def expand_val_def to_bool_def)
  show ?thesis
    unfolding expand_targets_def a Let_def by simp
qed

text \<open>
  Claim C9. \<open>expand_targets\<close> reads every target as a boolean first: a target is true
  exactly when it is not zero, so every nonzero target (one half, minus one) gives the
  pair \<open>[1, 0]\<close> and only zero gives \<open>[0, 1]\<close>; the pairs follow the targets row by row.
  With no target at all \<^verbatim>\<open>torch.stack\<close> raises.
\<close>

theorem C9_nonzero_targets_expand_to_positive:
  "expand_targets t =
     (if concat (rows t) = [] then Inl RuntimeError
      else Inr \<lparr>shape = [length (concat (rows t)), 2],
                flat = concat (map (\<lambda>v. if v \<noteq> 0 then [1, 0] else [0, 1]) (concat (rows t)))\<rparr>) \<and>
   to_bool v = (v \<noteq> 0) \<and>
   expand_val (to_bool v) = (if v \<noteq> 0 then [1, 0] else [0, 1])"
  by (simp add: expand_targets_flat to_bool_def expand_val_def)

theorem C9_witness:
  "expand_targets \<lparr>dim0 = 1, dim1 = 4, rows = [[1 / 2, - 1, 0, 1]]\<rparr> =
     Inr \<lparr>shape = [4, 2], flat = [1, 0, 1, 0, 0, 1, 1, 0]\<rparr>"
  using C9_nonzero_targets_expand_to_positive [of "\<lparr>dim0 = 1, dim1 = 4, rows = [[1 / 2, - 1, 0, 1]]\<rparr>" 0]
  by simp

text \<open>
  Claim C5 says that the argmax of the expanded pair is the label again. It is not:
  the label 1 is expanded to \<open>[1, 0]\<close>, whose argmax is 0.
\<close>

theorem C5_counterexample:
  "expand_targets \<lparr>dim0 = 1, dim1 = 1, rows = [[1]]\<rparr> = Inr \<lparr>shape = [1, 2], flat = [1, 0]\<rparr> \<and>
   real (argmax [1, 0]) \<noteq> 1"
  by (simp add: expand_targets_flat argmax_def)

text \<open>
  Claim C5, amended. Label expansion maps the label 1 to \<open>[1, 0]\<close> and the label 0 to
  \<open>[0, 1]\<close>, the class "in summary" first; the argmax of the pair is the index of the
  class, 0 for the label 1 and 1 for the label 0, so for every boolean label the
  label is recovered exactly as one minus the argmax (the argmax is 0 exactly for
  the label 1).
\<close>

theorem C5_label_recovered_from_argmax:
  "expand_targets \<lparr>dim0 = 1, dim1 = 1, rows = [[of_bool b]]\<rparr> =
     Inr \<lparr>shape = [1, 2], flat = (if b then [1, 0] else [0, 1])\<rparr> \<and>
   argmax (if b then [1, 0] else [0, 1]) = (if b then 0 else 1) \<and>
   (argmax (if b then [1, 0] else [0, 1]) = 0) = b \<and>
   of_bool b = 1 - real (argmax (if b then [1, 0] else [0, 1]))"
  by (simp add: expand_targets_flat argmax_def)

theorem C5_witness:
  "expand_targets \<lparr>dim0 = 1, dim1 = 1, rows = [[1]]\<rparr> = Inr \<lparr>shape = [1, 2], flat = [1, 0]\<rparr> \<and>
   expand_targets \<lparr>dim0 = 1, dim1 = 1, rows = [[0]]\<rparr> = Inr \<lparr>shape = [1, 2], flat = [0, 1]\<rparr> \<and>
   argmax [1, 0] = 0 \<and> argmax [0, 1] = 1"
  using C5_label_recovered_from_argmax [of True] C5_label_recovered_from_argmax [of False]
  by simp

section \<open>Paper-level examples\<close>





































section \<open>Collation\<close>

lemma trunc_of_int [simp]: "trunc (of_int n) = n"
  by (simp add: trunc_def)

lemma to_int32_float32_exact:
  assumes "\<bar>n\<bar> \<le> 2 ^ 24"
  shows "to_int32 oor (float32_of_int n) = n"
proof -
  have "- (2 ^ 31) \<le> n" "n < 2 ^ 31"
    using assms by simp_all
  then show ?thesis
    using assms by (simp add: to_int32_def float32_of_int_def)
qed

lemma to_int32_zero [simp]: "to_int32 oor 0 = 0"
  using to_int32_float32_exact [of 0 oor] by (simp add: float32_of_int_def)










end
